theory Spec2Isabelle
  imports Main "HOL-Library.AList"
begin

section \<open>Values that cross the library boundaries\<close>

text \<open>
  The program is the \<^verbatim>\<open>main\<close> function of \<^verbatim>\<open>scaffolds/vfx/qml/src/main.cpp\<close>.
  Everything it calls lives in external libraries (the C++ standard library, Qt, USD);
  each call is modelled below by the part of its documented contract that the program
  depends on, and whatever the libraries or the outside world decide is a field of
  \<open>env\<close>, over which the theorems quantify.
\<close>

type_synonym qurl = string

text \<open>A \<^verbatim>\<open>QObject *\<close>: \<open>None\<close> is the null pointer, \<open>Some a\<close> an object at address \<open>a\<close>.\<close>

type_synonym qobject_ptr = "nat option"

text \<open>The key/value pairs of the root \<^verbatim>\<open>QQmlContext\<close>, most recent binding of a key kept.\<close>

type_synonym qml_context = "(string \<times> string) list"

datatype thread = GuiThread | WorkerThread nat

text \<open>The values of \<^verbatim>\<open>Qt::ConnectionType\<close> that decide when and where a slot runs.\<close>

datatype connection_type = AutoConnection | DirectConnection | QueuedConnection

text \<open>
  A connection of \<^verbatim>\<open>QQmlApplicationEngine::objectCreated\<close> to the lambda of lines 23-26:
  the \<^verbatim>\<open>url\<close> the lambda captured, the thread its context object (\<^verbatim>\<open>&app\<close>) lives in, and
  the connection type given to \<^verbatim>\<open>QObject::connect\<close>.
\<close>

record connection =
  conn_type :: connection_type
  captured_url :: qurl
  receiver_thread :: thread

text \<open>What the program does to its collaborators, in program order.\<close>

datatype event =
    EvQueryVersion
  | EvSetContextProperty string string
  | EvConnect connection_type
  | EvLoadCall qurl qml_context
  | EvLoadReturn
  | EvExecEnter
  | EvSlotRun thread qobject_ptr qurl

text \<open>
  What the device behind the standard output does with a write: it takes the characters;
  it fails the write with an error (a closed descriptor, a full disk); or it is a pipe
  whose reader has gone, and the write raises \<^verbatim>\<open>SIGPIPE\<close>, whose disposition the program
  never changes, so the process is killed.
\<close>

datatype device = Accepts | Refuses | BrokenPipe

text \<open>
  \<^verbatim>\<open>std::cout\<close>: the characters the device accepted, the characters inserted and not yet
  flushed, the device, whether an error bit of \<^verbatim>\<open>rdstate()\<close> is set, and whether
  \<^verbatim>\<open>exceptions()\<close> asks for \<^verbatim>\<open>std::ios_base::failure\<close> to be thrown when one is.
\<close>

record ostream =
  sink :: string
  buffer :: string
  device :: device
  failed :: bool
  throws :: bool

text \<open>What ends \<^verbatim>\<open>main\<close> before it returns: an exception that leaves it, or the signal.\<close>

datatype error = IosFailure | Sigpipe

record state =
  cout :: ostream
  pxr_version :: int
  root_context :: qml_context
  connections :: "connection list"
  posted :: "(connection \<times> qobject_ptr \<times> qurl) list"
  loop_running :: bool
  return_code :: "int option"
  trace :: "event list"

text \<open>What arrives at the event loop from outside while \<^verbatim>\<open>app.exec()\<close> runs.\<close>

datatype loop_input = LateEmit thread qobject_ptr qurl | LastWindowClosed

text \<open>
  The outside world of one execution: the \<^verbatim>\<open>PXR_VERSION\<close> of the linked USD build, the
  condition of the diagnostic stream at start, the \<^verbatim>\<open>objectCreated\<close> emissions the engine
  makes inside \<^verbatim>\<open>load\<close> (it is handed the context and the url, and only reads them), and
  what reaches the event loop afterwards.
\<close>

record env =
  env_pxr_version :: int
  env_cout_failed :: bool
  env_device_ok :: bool
  env_resolve :: "qml_context \<Rightarrow> qurl \<Rightarrow> (thread \<times> qobject_ptr \<times> qurl) list"
  env_loop_inputs :: "loop_input list"

section \<open>The C++ standard library\<close>

definition digit_char :: "nat \<Rightarrow> char" where
  "digit_char d = ''0123456789'' ! d"

fun dec_nat :: "nat \<Rightarrow> string" where
  "dec_nat n = (if n < 10 then [digit_char n] else dec_nat (n div 10) @ [digit_char (n mod 10)])"

declare dec_nat.simps [simp del]

text \<open>Decimal text of an \<^verbatim>\<open>int\<close>, as \<^verbatim>\<open>printf("%d")\<close> writes it.\<close>

definition dec_int :: "int \<Rightarrow> string" where
  "dec_int v = (if v < 0 then CHR ''-'' # dec_nat (nat (- v)) else dec_nat (nat v))"

text \<open>\<^verbatim>\<open>std::to_string(int)\<close>.\<close>

definition to_string :: "int \<Rightarrow> string" where
  "to_string v = dec_int v"

text \<open>
  One formatted insertion into a \<^verbatim>\<open>std::ostream\<close>. With an error bit already set the
  sentry fails and nothing is inserted, and the call throws only if the stream's
  exception mask asks for it; otherwise the characters go to the stream's buffer.
\<close>

definition ostream_insert :: "string \<Rightarrow> ostream \<Rightarrow> error + ostream" where
  "ostream_insert s os =
     (if failed os then (if throws os then Inl IosFailure else Inr os)
      else Inr (os\<lparr>buffer := buffer os @ s\<rparr>))"

text \<open>
  \<^verbatim>\<open>flush()\<close>: the buffer is written to the device. A write the device fails sets
  \<^verbatim>\<open>badbit\<close> (and throws only if the exception mask asks for it); a write to a pipe
  without a reader does not return: the process is killed by \<^verbatim>\<open>SIGPIPE\<close>.
\<close>

definition ostream_flush :: "ostream \<Rightarrow> error + ostream" where
  "ostream_flush os =
     (if failed os then (if throws os then Inl IosFailure else Inr os)
      else (case device os of
              Accepts \<Rightarrow> Inr (os\<lparr>sink := sink os @ buffer os, buffer := []\<rparr>)
            | Refuses \<Rightarrow> (if throws os then Inl IosFailure else Inr (os\<lparr>failed := True\<rparr>))
            | BrokenPipe \<Rightarrow> Inl Sigpipe))"

text \<open>\<^verbatim>\<open>operator<<(int)\<close> with the stream's default flags (\<^verbatim>\<open>std::dec\<close>, no \<^verbatim>\<open>showpos\<close>).\<close>

definition ostream_insert_int :: "int \<Rightarrow> ostream \<Rightarrow> error + ostream" where
  "ostream_insert_int v os = ostream_insert (dec_int v) os"

text \<open>\<^verbatim>\<open>std::endl\<close>: a newline, then a flush.\<close>

definition ostream_endl :: "ostream \<Rightarrow> error + ostream" where
  "ostream_endl os =
     (case ostream_insert [CHR 0x0A] os of
        Inl x \<Rightarrow> Inl x
      | Inr os1 \<Rightarrow> ostream_flush os1)"

section \<open>USD\<close>

text \<open>
  Modelled from the spec: \<^verbatim>\<open>pxr::UsdGetVersion()\<close> is declared in a header of the USD
  distribution, which is not among the sources. The spec (sections 4.1 and 6) has the
  version query a pure, side-effect-free read of the embedded library's compile/link-time
  identity that cannot fail and returns a numeric version identity; lines 14 and 19 hand
  the result to \<^verbatim>\<open>operator<<\<close> and \<^verbatim>\<open>std::to_string\<close> as a number, taken here to be an
  \<^verbatim>\<open>int\<close>. The model returns the version of the linked build and changes nothing but the
  trace, where the call is recorded.
\<close>

definition UsdGetVersion :: "state \<Rightarrow> int \<times> state" where
  "UsdGetVersion st = (pxr_version st, st\<lparr>trace := trace st @ [EvQueryVersion]\<rparr>)"

section \<open>Qt\<close>

definition log_event :: "event \<Rightarrow> state \<Rightarrow> state" where
  "log_event e st = st\<lparr>trace := trace st @ [e]\<rparr>"

text \<open>
  \<^verbatim>\<open>QCoreApplication::exit(returnCode)\<close>: the main event loop is left and \<^verbatim>\<open>exec()\<close>
  returns \<open>returnCode\<close>; if the event loop is not running, the call does nothing.
\<close>

definition QCoreApplication_exit :: "int \<Rightarrow> state \<Rightarrow> state" where
  "QCoreApplication_exit rc st = (if loop_running st then st\<lparr>return_code := Some rc\<rparr> else st)"

text \<open>\<^verbatim>\<open>QQmlContext::setContextProperty\<close> on the engine's root context.\<close>

definition setContextProperty :: "string \<Rightarrow> string \<Rightarrow> state \<Rightarrow> state" where
  "setContextProperty k v st =
     log_event (EvSetContextProperty k v) (st\<lparr>root_context := AList.update k v (root_context st)\<rparr>)"

text \<open>
  The lambda of lines 23-26, with its capture \<open>url\<close>:
  \<^verbatim>\<open>if (!obj && url == objUrl) QCoreApplication::exit(-1);\<close>
\<close>

definition handler :: "qurl \<Rightarrow> qobject_ptr \<Rightarrow> qurl \<Rightarrow> state \<Rightarrow> state" where
  "handler url obj objUrl st =
     (if obj = None \<and> url = objUrl then QCoreApplication_exit (- 1) st else st)"

text \<open>\<^verbatim>\<open>QObject::connect(&engine, &QQmlApplicationEngine::objectCreated, &app, lambda, type)\<close>.\<close>

definition connect_objectCreated :: "connection \<Rightarrow> state \<Rightarrow> state" where
  "connect_objectCreated c st =
     log_event (EvConnect (conn_type c)) (st\<lparr>connections := connections st @ [c]\<rparr>)"

text \<open>The slot of connection \<open>c\<close> runs on thread \<open>t\<close>.\<close>

definition run_slot :: "thread \<Rightarrow> connection \<Rightarrow> qobject_ptr \<Rightarrow> qurl \<Rightarrow> state \<Rightarrow> state" where
  "run_slot t c obj objUrl st =
     handler (captured_url c) obj objUrl (log_event (EvSlotRun t obj objUrl) st)"

definition post_slot :: "connection \<Rightarrow> qobject_ptr \<Rightarrow> qurl \<Rightarrow> state \<Rightarrow> state" where
  "post_slot c obj objUrl st = st\<lparr>posted := posted st @ [(c, obj, objUrl)]\<rparr>"

text \<open>
  Activation of one connection when thread \<open>t\<close> emits the signal: a direct connection
  calls the slot at once in the emitting thread; a queued connection posts the call to
  the receiver's thread, whose event loop makes it later; an auto connection is direct
  when the emitter is in the receiver's thread and queued otherwise.
\<close>

definition activate :: "thread \<Rightarrow> qobject_ptr \<Rightarrow> qurl \<Rightarrow> connection \<Rightarrow> state \<Rightarrow> state" where
  "activate t obj objUrl c st =
     (case conn_type c of
        DirectConnection \<Rightarrow> run_slot t c obj objUrl st
      | QueuedConnection \<Rightarrow> post_slot c obj objUrl st
      | AutoConnection \<Rightarrow>
          (if t = receiver_thread c then run_slot t c obj objUrl st
           else post_slot c obj objUrl st))"

definition emit_objectCreated :: "thread \<times> qobject_ptr \<times> qurl \<Rightarrow> state \<Rightarrow> state" where
  "emit_objectCreated e st =
     (case e of (t, obj, objUrl) \<Rightarrow> fold (activate t obj objUrl) (connections st) st)"

text \<open>
  \<^verbatim>\<open>engine.load(url)\<close>: the engine resolves and instantiates the component against its
  root context, emitting \<^verbatim>\<open>objectCreated\<close> for what it finished inside the call.
\<close>

definition engine_load :: "(qml_context \<Rightarrow> qurl \<Rightarrow> (thread \<times> qobject_ptr \<times> qurl) list) \<Rightarrow> qurl \<Rightarrow> state \<Rightarrow> state" where
  "engine_load resolve url st =
     log_event EvLoadReturn
       (fold emit_objectCreated (resolve (root_context st) url)
          (log_event (EvLoadCall url (root_context st)) st))"

text \<open>The event loop makes every posted call, each in its receiver's thread.\<close>

definition sendPostedEvents :: "state \<Rightarrow> state" where
  "sendPostedEvents st =
     fold (\<lambda>p s. case p of (c, obj, objUrl) \<Rightarrow> run_slot (receiver_thread c) c obj objUrl s)
       (posted st) (st\<lparr>posted := []\<rparr>)"

text \<open>Closing the last window quits the application: \<^verbatim>\<open>exit(0)\<close>.\<close>

definition handle_input :: "loop_input \<Rightarrow> state \<Rightarrow> state" where
  "handle_input i st =
     (case i of
        LateEmit t obj objUrl \<Rightarrow> emit_objectCreated (t, obj, objUrl) st
      | LastWindowClosed \<Rightarrow> QCoreApplication_exit 0 st)"

text \<open>
  The loop of \<^verbatim>\<open>exec()\<close>: deliver what is posted, leave if an exit was requested, else take
  the next input. With no exit requested and nothing more to come, the loop waits for
  ever: the result is \<open>None\<close>.
\<close>

fun event_loop :: "loop_input list \<Rightarrow> state \<Rightarrow> int option \<times> state" where
  "event_loop [] st = (let st1 = sendPostedEvents st in (return_code st1, st1))"
| "event_loop (i # rest) st =
     (let st1 = sendPostedEvents st in
      case return_code st1 of
        Some rc \<Rightarrow> (Some rc, st1)
      | None \<Rightarrow> event_loop rest (handle_input i st1))"

definition app_exec :: "loop_input list \<Rightarrow> state \<Rightarrow> int option \<times> state" where
  "app_exec ins st =
     (case event_loop ins (log_event EvExecEnter (st\<lparr>loop_running := True\<rparr>)) of
        (rc, st') \<Rightarrow> (rc, st'\<lparr>loop_running := False\<rparr>))"

section \<open>The program\<close>

text \<open>
  The process as \<^verbatim>\<open>QGuiApplication app(argc, argv)\<close> leaves it: \<^verbatim>\<open>std::cout\<close> has the
  exception mask of a standard stream (nothing is thrown) and an empty buffer, no event
  loop runs yet. The device of an \<open>env\<close> takes writes or fails them with an error.
\<close>

definition QGuiApplication_ctor :: "env \<Rightarrow> state" where
  "QGuiApplication_ctor e =
     \<lparr>cout = \<lparr>sink = [], buffer = [],
              device = (if env_device_ok e then Accepts else Refuses),
              failed = env_cout_failed e, throws = False\<rparr>,
      pxr_version = env_pxr_version e,
      root_context = [], connections = [], posted = [],
      loop_running = False, return_code = None, trace = []\<rparr>"

text \<open>\<^verbatim>\<open>QQmlApplicationEngine engine;\<close> a fresh root context, no connection yet.\<close>

definition QQmlApplicationEngine_ctor :: "state \<Rightarrow> state" where
  "QQmlApplicationEngine_ctor st = st\<lparr>root_context := [], connections := []\<rparr>"

text \<open>
  Line 14: \<^verbatim>\<open>std::cout << "USD Version: " << pxr::UsdGetVersion() << std::endl;\<close>
  An exception of any insertion leaves \<^verbatim>\<open>main\<close>, and so does the signal of the flush.
\<close>

definition print_version :: "state \<Rightarrow> error + state" where
  "print_version st =
     (case ostream_insert ''USD Version: '' (cout st) of
        Inl x \<Rightarrow> Inl x
      | Inr os1 \<Rightarrow>
          (case UsdGetVersion (st\<lparr>cout := os1\<rparr>) of
             (v, st1) \<Rightarrow>
               (case ostream_insert_int v (cout st1) of
                  Inl x \<Rightarrow> Inl x
                | Inr os2 \<Rightarrow>
                    (case ostream_endl os2 of
                       Inl x \<Rightarrow> Inl x
                     | Inr os3 \<Rightarrow> Inr (st1\<lparr>cout := os3\<rparr>)))))"

definition main_url :: qurl where
  "main_url = ''qrc:/main.qml''"

text \<open>
  Lines 14-29 of \<^verbatim>\<open>main\<close>, run from the state \<open>st0\<close> that line 11 leaves, with what the
  engine will emit inside \<^verbatim>\<open>load\<close> and what will reach the event loop. The result is what
  ended \<^verbatim>\<open>main\<close> early, or the value \<^verbatim>\<open>app.exec()\<close> returned (\<open>None\<close> when it never
  returns) with the final state.
\<close>

definition main_from ::
  "(qml_context \<Rightarrow> qurl \<Rightarrow> (thread \<times> qobject_ptr \<times> qurl) list) \<Rightarrow> loop_input list \<Rightarrow> state \<Rightarrow>
   error + (int option \<times> state)" where
  "main_from resolve ins st0 =
     (case print_version st0 of
        Inl x \<Rightarrow> Inl x
      | Inr st1 \<Rightarrow>
          (case UsdGetVersion (QQmlApplicationEngine_ctor st1) of
             (v, st2) \<Rightarrow>
               (let st3 = setContextProperty ''usdVersion'' (to_string v) st2;
                    url = main_url;
                    st4 = connect_objectCreated
                            \<lparr>conn_type = QueuedConnection, captured_url = url,
                             receiver_thread = GuiThread\<rparr> st3;
                    st5 = engine_load resolve url st4
                in Inr (app_exec ins st5))))"

text \<open>\<^verbatim>\<open>main\<close>, lines 9-30, in the outside world \<open>e\<close>.\<close>

definition main :: "env \<Rightarrow> error + (int option \<times> state)" where
  "main e = main_from (env_resolve e) (env_loop_inputs e) (QGuiApplication_ctor e)"

section \<open>Sample executions\<close>

text \<open>
  A run where the component resolves: the engine reports an object for the requested
  url, the stream works, and the user later closes the window.
\<close>

definition env_resolved :: env where
  "env_resolved =
     \<lparr>env_pxr_version = 2505, env_cout_failed = False, env_device_ok = True,
      env_resolve = (\<lambda>ctx u. [(GuiThread, Some 1, u)]),
      env_loop_inputs = [LastWindowClosed]\<rparr>"

text \<open>
  A run where the component does not resolve: the engine reports a null object for the
  requested url from a worker thread, and the diagnostic device refuses every write.
\<close>

definition env_unresolved :: env where
  "env_unresolved =
     \<lparr>env_pxr_version = 2505, env_cout_failed = False, env_device_ok = False,
      env_resolve = (\<lambda>ctx u. [(WorkerThread 3, None, u)]),
      env_loop_inputs = [LastWindowClosed]\<rparr>"

text \<open>
  A run where the engine finishes after \<^verbatim>\<open>load\<close> has returned: nothing is emitted inside
  the call, and the failure is reported from a worker thread while the event loop runs.
\<close>

definition env_async :: env where
  "env_async =
     \<lparr>env_pxr_version = 2505, env_cout_failed = True, env_device_ok = True,
      env_resolve = (\<lambda>ctx u. []),
      env_loop_inputs = [LateEmit (WorkerThread 3) None ''qrc:/main.qml'', LastWindowClosed]\<rparr>"

text \<open>A state inside the event loop, no exit requested yet.\<close>

definition running_state :: state where
  "running_state =
     \<lparr>cout = \<lparr>sink = [], buffer = [], device = Accepts, failed = False, throws = False\<rparr>,
      pxr_version = 2505, root_context = [(''usdVersion'', ''2505'')],
      connections = [], posted = [], loop_running = True, return_code = None,
      trace = []\<rparr>"



section \<open>Notions used in the proofs\<close>

text \<open>The one connection \<^verbatim>\<open>main\<close> makes.\<close>

definition main_conn :: connection where
  "main_conn = \<lparr>conn_type = QueuedConnection, captured_url = main_url, receiver_thread = GuiThread\<rparr>"

text \<open>A stream that line 14 does not end the process on, after line 14.\<close>

definition stream_after :: "int \<Rightarrow> ostream \<Rightarrow> ostream" where
  "stream_after v os =
     (if failed os then os
      else (case device os of
              Accepts \<Rightarrow>
                os\<lparr>sink := sink os @ buffer os @ ''USD Version: '' @ dec_int v @ [CHR 0x0A],
                   buffer := []\<rparr>
            | Refuses \<Rightarrow>
                os\<lparr>buffer := buffer os @ ''USD Version: '' @ dec_int v @ [CHR 0x0A],
                   failed := True\<rparr>
            | BrokenPipe \<Rightarrow> os))"

text \<open>The diagnostic stream of an \<open>env\<close> after line 14.\<close>

definition cout_after :: "env \<Rightarrow> ostream" where
  "cout_after e = stream_after (env_pxr_version e) (cout (QGuiApplication_ctor e))"

text \<open>The state in which \<^verbatim>\<open>engine.load(url)\<close> is called (lines 11-26 done).\<close>

definition before_load :: "env \<Rightarrow> state" where
  "before_load e =
     \<lparr>cout = cout_after e, pxr_version = env_pxr_version e,
      root_context = [(''usdVersion'', to_string (env_pxr_version e))],
      connections = [main_conn], posted = [], loop_running = False, return_code = None,
      trace = [EvQueryVersion, EvQueryVersion,
               EvSetContextProperty ''usdVersion'' (to_string (env_pxr_version e)),
               EvConnect QueuedConnection]\<rparr>"

text \<open>The trace entry of a posted call when the event loop makes it.\<close>

definition slot_event :: "connection \<times> qobject_ptr \<times> qurl \<Rightarrow> event" where
  "slot_event p = (case p of (c, obj, objUrl) \<Rightarrow> EvSlotRun (receiver_thread c) obj objUrl)"

text \<open>A posted call on which the lambda requests the exit.\<close>

definition failing :: "connection \<times> qobject_ptr \<times> qurl \<Rightarrow> bool" where
  "failing p = (case p of (c, obj, objUrl) \<Rightarrow> obj = None \<and> captured_url c = objUrl)"

text \<open>The event is a run of the lambda on thread \<open>t\<close>.\<close>

definition slot_run_on :: "thread \<Rightarrow> event \<Rightarrow> bool" where
  "slot_run_on t ev = (case ev of EvSlotRun t' obj u \<Rightarrow> t' = t | _ \<Rightarrow> False)"

text \<open>The event is a run of the lambda with a null object for \<open>url\<close>.\<close>

definition failed_delivery :: "qurl \<Rightarrow> event \<Rightarrow> bool" where
  "failed_delivery url ev = (case ev of EvSlotRun t obj u \<Rightarrow> obj = None \<and> u = url | _ \<Rightarrow> False)"

text \<open>The state in which the event loop of \<^verbatim>\<open>app.exec()\<close> starts.\<close>

definition exec_entry :: "env \<Rightarrow> state" where
  "exec_entry e =
     log_event EvExecEnter
       ((engine_load (env_resolve e) main_url (before_load e))\<lparr>loop_running := True\<rparr>)"

text \<open>What \<^verbatim>\<open>main\<close> has done when the event loop starts.\<close>

definition startup_trace :: "env \<Rightarrow> event list" where
  "startup_trace e =
     [EvQueryVersion, EvQueryVersion,
      EvSetContextProperty ''usdVersion'' (to_string (env_pxr_version e)),
      EvConnect QueuedConnection,
      EvLoadCall main_url [(''usdVersion'', to_string (env_pxr_version e))],
      EvLoadReturn, EvExecEnter]"

text \<open>The runs of the lambda for what the engine emitted inside \<^verbatim>\<open>load\<close>.\<close>

definition load_deliveries :: "env \<Rightarrow> event list" where
  "load_deliveries e =
     map (\<lambda>(t, obj, objUrl). EvSlotRun GuiThread obj objUrl)
       (env_resolve e [(''usdVersion'', to_string (env_pxr_version e))] main_url)"

section \<open>Startup, load and the event loop in closed form\<close>

lemma print_version_eq:
  "\<not> throws (cout st) \<Longrightarrow>
   print_version st =
     (if \<not> failed (cout st) \<and> device (cout st) = BrokenPipe then Inl Sigpipe
      else Inr (st\<lparr>cout := stream_after (pxr_version st) (cout st),
                  trace := trace st @ [EvQueryVersion]\<rparr>))"
  by (simp add: print_version_def ostream_insert_def ostream_insert_int_def ostream_endl_def
      ostream_flush_def UsdGetVersion_def stream_after_def split: device.split)

lemma main_from_eq:
  assumes "\<not> throws os" "failed os \<or> device os \<noteq> BrokenPipe"
  shows "main_from (env_resolve e) (env_loop_inputs e) ((QGuiApplication_ctor e)\<lparr>cout := os\<rparr>) =
     Inr (app_exec (env_loop_inputs e)
            (engine_load (env_resolve e) main_url
               ((before_load e)\<lparr>cout := stream_after (env_pxr_version e) os\<rparr>)))"
proof -
  let ?s0 = "(QGuiApplication_ctor e)\<lparr>cout := os\<rparr>"
  have p: "print_version ?s0 =
     Inr (?s0\<lparr>cout := stream_after (pxr_version ?s0) (cout ?s0),
              trace := trace ?s0 @ [EvQueryVersion]\<rparr>)"
    using assms print_version_eq [of ?s0] by auto
  show ?thesis
    unfolding main_from_def p
    by (simp add: QGuiApplication_ctor_def QQmlApplicationEngine_ctor_def
        UsdGetVersion_def setContextProperty_def connect_objectCreated_def log_event_def
        before_load_def main_conn_def)
qed

lemma main_eq:
  "main e = Inr (app_exec (env_loop_inputs e) (engine_load (env_resolve e) main_url (before_load e)))"
proof -
  let ?os = "cout (QGuiApplication_ctor e)"
  have a: "\<not> throws ?os" "failed ?os \<or> device ?os \<noteq> BrokenPipe"
    by (simp_all add: QGuiApplication_ctor_def)
  have b: "(QGuiApplication_ctor e)\<lparr>cout := ?os\<rparr> = QGuiApplication_ctor e" by simp
  have c: "(before_load e)\<lparr>cout := stream_after (env_pxr_version e) ?os\<rparr> = before_load e"
    by (simp add: before_load_def cout_after_def)
  from main_from_eq [OF a, of e] show ?thesis
    unfolding b c by (simp add: main_def)
qed

lemma fold_activate_queued:
  "list_all (\<lambda>c. conn_type c = QueuedConnection) cs \<Longrightarrow>
   fold (activate t obj u) cs st = st\<lparr>posted := posted st @ map (\<lambda>c. (c, obj, u)) cs\<rparr>"
  by (induction cs arbitrary: st) (simp_all add: activate_def post_slot_def)

lemma emit_queued:
  "connections st = [c] \<Longrightarrow> conn_type c = QueuedConnection \<Longrightarrow>
   emit_objectCreated (t, obj, u) st = st\<lparr>posted := posted st @ [(c, obj, u)]\<rparr>"
  by (simp add: emit_objectCreated_def activate_def post_slot_def)

lemma fold_emit_queued:
  "connections st = [c] \<Longrightarrow> conn_type c = QueuedConnection \<Longrightarrow>
   fold emit_objectCreated es st = st\<lparr>posted := posted st @ map (\<lambda>e. (c, snd e)) es\<rparr>"
proof (induction es arbitrary: st)
  case Nil
  then show ?case by simp
next
  case (Cons e es)
  obtain t obj u where e: "e = (t, obj, u)" by (cases e) auto
  from Cons.prems have step: "emit_objectCreated e st = st\<lparr>posted := posted st @ [(c, obj, u)]\<rparr>"
    unfolding e by (rule emit_queued)
  have "fold emit_objectCreated es (st\<lparr>posted := posted st @ [(c, obj, u)]\<rparr>) =
        (st\<lparr>posted := posted st @ [(c, obj, u)]\<rparr>)\<lparr>posted := posted (st\<lparr>posted := posted st @ [(c, obj, u)]\<rparr>) @ map (\<lambda>e. (c, snd e)) es\<rparr>"
    by (rule Cons.IH) (use Cons.prems in simp_all)
  then show ?case by (simp add: step [unfolded e] e)
qed

lemma engine_load_queued:
  "connections st = [c] \<Longrightarrow> conn_type c = QueuedConnection \<Longrightarrow>
   engine_load resolve url st =
     st\<lparr>posted := posted st @ map (\<lambda>e. (c, snd e)) (resolve (root_context st) url),
        trace := trace st @ [EvLoadCall url (root_context st), EvLoadReturn]\<rparr>"
  by (simp add: engine_load_def log_event_def fold_emit_queued)

lemma fold_run_slot:
  "loop_running st \<Longrightarrow>
   fold (\<lambda>p s. case p of (c, obj, objUrl) \<Rightarrow> run_slot (receiver_thread c) c obj objUrl s) ps st =
     st\<lparr>trace := trace st @ map slot_event ps,
        return_code := (if list_ex failing ps then Some (- 1) else return_code st)\<rparr>"
proof (induction ps arbitrary: st)
  case Nil
  then show ?case by simp
next
  case (Cons p ps)
  obtain c obj u where p: "p = (c, obj, u)" by (cases p) auto
  let ?s = "run_slot (receiver_thread c) c obj u st"
  have s: "?s = st\<lparr>trace := trace st @ [slot_event p],
                    return_code := (if failing p then Some (- 1) else return_code st)\<rparr>"
    using Cons.prems
    by (simp add: run_slot_def handler_def log_event_def QCoreApplication_exit_def
        slot_event_def failing_def p)
  have "loop_running ?s" using Cons.prems by (simp add: s)
  from Cons.IH [OF this] show ?case by (simp add: p s)
qed

lemma sendPostedEvents_eq:
  "loop_running st \<Longrightarrow>
   sendPostedEvents st =
     st\<lparr>posted := [], trace := trace st @ map slot_event (posted st),
        return_code := (if list_ex failing (posted st) then Some (- 1) else return_code st)\<rparr>"
  by (simp add: sendPostedEvents_def fold_run_slot)

lemma handle_input_queued:
  assumes "connections st = [c]" "conn_type c = QueuedConnection" "loop_running st"
  shows "handle_input i st =
     (case i of LateEmit t obj u \<Rightarrow> st\<lparr>posted := posted st @ [(c, obj, u)]\<rparr>
      | LastWindowClosed \<Rightarrow> st\<lparr>return_code := Some 0\<rparr>)"
  using assms
  by (cases i) (simp_all add: handle_input_def emit_queued QCoreApplication_exit_def)

lemma slot_events_on:
  "list_all (\<lambda>p. fst p = c) ps \<Longrightarrow>
   list_all (slot_run_on (receiver_thread c)) (map slot_event ps)"
  by (auto simp: list_all_iff slot_event_def slot_run_on_def)

lemma event_loop_frame:
  assumes "connections st = [c]" "conn_type c = QueuedConnection" "loop_running st"
    "list_all (\<lambda>p. fst p = c) (posted st)"
  shows "cout (snd (event_loop ins st)) = cout st \<and>
         pxr_version (snd (event_loop ins st)) = pxr_version st \<and>
         root_context (snd (event_loop ins st)) = root_context st \<and>
         (\<exists>more. trace (snd (event_loop ins st)) = trace st @ map slot_event (posted st) @ more \<and>
            list_all (slot_run_on (receiver_thread c)) more)"
  using assms
proof (induction ins arbitrary: st)
  case Nil
  then show ?case by (simp add: sendPostedEvents_eq)
next
  case (Cons i rest)
  let ?s1 = "sendPostedEvents st"
  have s1: "?s1 = st\<lparr>posted := [], trace := trace st @ map slot_event (posted st),
        return_code := (if list_ex failing (posted st) then Some (- 1) else return_code st)\<rparr>"
    using Cons.prems(3) by (rule sendPostedEvents_eq)
  show ?case
  proof (cases "return_code ?s1")
    case (Some rc)
    then have "event_loop (i # rest) st = (Some rc, ?s1)" by simp
    then show ?thesis by (simp add: s1)
  next
    case None
    let ?s2 = "handle_input i ?s1"
    have c1: "connections ?s1 = [c]" and l1: "loop_running ?s1"
      using Cons.prems by (simp_all add: s1)
    have s2: "?s2 = (case i of LateEmit t obj u \<Rightarrow> ?s1\<lparr>posted := posted ?s1 @ [(c, obj, u)]\<rparr>
      | LastWindowClosed \<Rightarrow> ?s1\<lparr>return_code := Some 0\<rparr>)"
      using c1 Cons.prems(2) l1 by (rule handle_input_queued)
    have p2: "connections ?s2 = [c]" "loop_running ?s2" "list_all (\<lambda>p. fst p = c) (posted ?s2)"
      "cout ?s2 = cout st" "pxr_version ?s2 = pxr_version st" "root_context ?s2 = root_context st"
      "trace ?s2 = trace st @ map slot_event (posted st)"
      using Cons.prems unfolding s2 by (simp_all add: s1 split: loop_input.split)
    from Cons.IH [OF p2(1) Cons.prems(2) p2(2) p2(3)]
    obtain more where
      f: "cout (snd (event_loop rest ?s2)) = cout ?s2"
         "pxr_version (snd (event_loop rest ?s2)) = pxr_version ?s2"
         "root_context (snd (event_loop rest ?s2)) = root_context ?s2"
      and t: "trace (snd (event_loop rest ?s2)) = trace ?s2 @ map slot_event (posted ?s2) @ more"
         "list_all (slot_run_on (receiver_thread c)) more"
      by blast
    have el: "event_loop (i # rest) st = event_loop rest ?s2" using None by simp
    have "trace (snd (event_loop (i # rest) st)) =
          trace st @ map slot_event (posted st) @ (map slot_event (posted ?s2) @ more)"
      unfolding el by (simp add: t p2)
    moreover have "list_all (slot_run_on (receiver_thread c)) (map slot_event (posted ?s2) @ more)"
      using slot_events_on [OF p2(3)] t(2) by simp
    ultimately show ?thesis using f p2 unfolding el by metis
  qed
qed

lemma failing_slot_event:
  "list_all (\<lambda>p. fst p = c) ps \<Longrightarrow>
   list_ex (failed_delivery (captured_url c)) (map slot_event ps) = list_ex failing ps"
  by (induction ps) (auto simp: failed_delivery_def slot_event_def failing_def)

lemma event_loop_rc:
  assumes "connections st = [c]" "conn_type c = QueuedConnection" "loop_running st"
    "list_all (\<lambda>p. fst p = c) (posted st)"
    "return_code st = None \<or> (return_code st = Some 0 \<and> posted st = [])"
    "\<not> list_ex (failed_delivery (captured_url c)) (trace st)"
  shows "(fst (event_loop ins st) = Some (- 1)) =
         list_ex (failed_delivery (captured_url c)) (trace (snd (event_loop ins st)))"
  using assms
proof (induction ins arbitrary: st)
  case Nil
  show ?case
    using Nil.prems(3,5,6) failing_slot_event [OF Nil.prems(4)]
    by (auto simp: sendPostedEvents_eq)
next
  case (Cons i rest)
  let ?s1 = "sendPostedEvents st"
  have s1: "?s1 = st\<lparr>posted := [], trace := trace st @ map slot_event (posted st),
        return_code := (if list_ex failing (posted st) then Some (- 1) else return_code st)\<rparr>"
    using Cons.prems(3) by (rule sendPostedEvents_eq)
  note fs = failing_slot_event [OF Cons.prems(4)]
  show ?case
  proof (cases "return_code ?s1")
    case (Some rc)
    then have el: "event_loop (i # rest) st = (Some rc, ?s1)" by simp
    show ?thesis
      unfolding el using Some Cons.prems(5,6) fs
      by (auto simp: s1 split: if_splits)
  next
    case None
    let ?s2 = "handle_input i ?s1"
    have nf: "\<not> list_ex failing (posted st)" using None by (simp add: s1 split: if_splits)
    have c1: "connections ?s1 = [c]" and l1: "loop_running ?s1"
      using Cons.prems by (simp_all add: s1)
    have s2: "?s2 = (case i of LateEmit t obj u \<Rightarrow> ?s1\<lparr>posted := posted ?s1 @ [(c, obj, u)]\<rparr>
      | LastWindowClosed \<Rightarrow> ?s1\<lparr>return_code := Some 0\<rparr>)"
      using c1 Cons.prems(2) l1 by (rule handle_input_queued)
    have p2: "connections ?s2 = [c]" "loop_running ?s2" "list_all (\<lambda>p. fst p = c) (posted ?s2)"
      using Cons.prems unfolding s2 by (simp_all add: s1 split: loop_input.split)
    have r2: "return_code ?s2 = None \<or> (return_code ?s2 = Some 0 \<and> posted ?s2 = [])"
      using None unfolding s2 by (simp add: s1 split: loop_input.split if_splits)
    have t2: "\<not> list_ex (failed_delivery (captured_url c)) (trace ?s2)"
      using Cons.prems(6) nf fs unfolding s2 by (simp add: s1 split: loop_input.split)
    have el: "event_loop (i # rest) st = event_loop rest ?s2" using None by simp
    show ?thesis
      unfolding el by (rule Cons.IH [OF p2(1) Cons.prems(2) p2(2) p2(3) r2 t2])
  qed
qed

lemma exec_entry_eq:
  "exec_entry e =
     \<lparr>cout = cout_after e, pxr_version = env_pxr_version e,
      root_context = [(''usdVersion'', to_string (env_pxr_version e))],
      connections = [main_conn],
      posted = map (\<lambda>x. (main_conn, snd x))
                 (env_resolve e [(''usdVersion'', to_string (env_pxr_version e))] main_url),
      loop_running = True, return_code = None,
      trace = [EvQueryVersion, EvQueryVersion,
               EvSetContextProperty ''usdVersion'' (to_string (env_pxr_version e)),
               EvConnect QueuedConnection,
               EvLoadCall main_url [(''usdVersion'', to_string (env_pxr_version e))],
               EvLoadReturn, EvExecEnter]\<rparr>"
proof -
  have "connections (before_load e) = [main_conn]" "conn_type main_conn = QueuedConnection"
    by (simp_all add: before_load_def main_conn_def)
  from engine_load_queued [OF this] show ?thesis
    by (simp add: exec_entry_def log_event_def before_load_def)
qed

lemma main_exec:
  "main e = Inr (fst (event_loop (env_loop_inputs e) (exec_entry e)),
                 (snd (event_loop (env_loop_inputs e) (exec_entry e)))\<lparr>loop_running := False\<rparr>)"
  by (simp add: main_eq app_exec_def exec_entry_def split: prod.split)

lemma main_result:
  "\<exists>rc st' more.
     main e = Inr (rc, st') \<and>
     cout st' = cout_after e \<and>
     pxr_version st' = env_pxr_version e \<and>
     root_context st' = [(''usdVersion'', to_string (env_pxr_version e))] \<and>
     trace st' = startup_trace e @ load_deliveries e @ more \<and>
     list_all (slot_run_on GuiThread) more \<and>
     (rc = Some (- 1)) = list_ex (failed_delivery main_url) (load_deliveries e @ more)"
proof -
  let ?s = "exec_entry e"
  let ?r = "event_loop (env_loop_inputs e) ?s"
  have a: "connections ?s = [main_conn]" "conn_type main_conn = QueuedConnection"
    "loop_running ?s" "list_all (\<lambda>p. fst p = main_conn) (posted ?s)"
    "return_code ?s = None \<or> (return_code ?s = Some 0 \<and> posted ?s = [])"
    "\<not> list_ex (failed_delivery (captured_url main_conn)) (trace ?s)"
    by (simp_all add: exec_entry_eq main_conn_def list_all_iff failed_delivery_def)
  have d: "map slot_event (posted ?s) = load_deliveries e"
    by (simp add: exec_entry_eq slot_event_def main_conn_def load_deliveries_def case_prod_beta)
  have s: "trace ?s = startup_trace e"
    by (simp add: exec_entry_eq startup_trace_def)
  from event_loop_frame [OF a(1-4), of "env_loop_inputs e"]
  obtain more where
    f: "cout (snd ?r) = cout ?s" "pxr_version (snd ?r) = pxr_version ?s"
       "root_context (snd ?r) = root_context ?s"
    and t: "trace (snd ?r) = startup_trace e @ load_deliveries e @ more"
       "list_all (slot_run_on (receiver_thread main_conn)) more"
    unfolding d s by blast
  have rc: "(fst ?r = Some (- 1)) = list_ex (failed_delivery main_url) (load_deliveries e @ more)"
    using event_loop_rc [OF a, of "env_loop_inputs e"] a(6)
    by (simp add: t s main_conn_def)
  have g: "list_all (slot_run_on GuiThread) more"
    using t(2) by (simp add: main_conn_def)
  have m: "main e = Inr (fst ?r, (snd ?r)\<lparr>loop_running := False\<rparr>)"
    by (rule main_exec)
  have "cout ((snd ?r)\<lparr>loop_running := False\<rparr>) = cout_after e"
    "pxr_version ((snd ?r)\<lparr>loop_running := False\<rparr>) = env_pxr_version e"
    "root_context ((snd ?r)\<lparr>loop_running := False\<rparr>) =
       [(''usdVersion'', to_string (env_pxr_version e))]"
    "trace ((snd ?r)\<lparr>loop_running := False\<rparr>) = startup_trace e @ load_deliveries e @ more"
    using f t(1) by (simp_all add: exec_entry_eq)
  with m g rc show ?thesis by blast
qed















lemma dec_nat_nonempty: "dec_nat n \<noteq> []"
  by (subst dec_nat.simps) simp

lemma to_string_nonempty: "to_string v \<noteq> []"
  by (simp add: to_string_def dec_int_def dec_nat_nonempty)

lemma slot_run_on_iff: "slot_run_on t ev = (\<exists>obj u. ev = EvSlotRun t obj u)"
  by (cases ev) (auto simp: slot_run_on_def)

lemma failed_delivery_ev: "failed_delivery url ev = (\<exists>t. ev = EvSlotRun t None url)"
  by (cases ev) (auto simp: failed_delivery_def)

lemma slot_runs_only:
  "list_all (slot_run_on t) evs \<Longrightarrow> ev \<in> set evs \<Longrightarrow> \<exists>obj u. ev = EvSlotRun t obj u"
  by (auto simp: list_all_iff slot_run_on_iff)


lemma failed_delivery_iff:
  "list_ex (failed_delivery url) evs = (\<exists>t. EvSlotRun t None url \<in> set evs)"
  by (auto simp: list_ex_iff failed_delivery_ev)

section \<open>The load-completion callback and the exit status\<close>

text \<open>
  C1. Inside the running event loop, with no exit requested so far, the callback requests
  the exit with status -1 exactly when it is handed a null object together with the
  identifier it was connected for; handed an object, it leaves the state as it is. For
  the process as a whole: \<^verbatim>\<open>main\<close> always reaches \<^verbatim>\<open>app.exec()\<close>, and the value
  it returns is -1 exactly when some delivery of the callback carried a null object and
  the requested identifier \<^verbatim>\<open>qrc:/main.qml\<close>.
\<close>

theorem sentinel_exit_iff_failed_delivery:
  "(loop_running st \<and> return_code st = None \<longrightarrow>
      (return_code (handler url obj objUrl st) = Some (- 1)) = (obj = None \<and> objUrl = url)) \<and>
   handler url (Some a) objUrl st = st \<and>
   (\<exists>rc st'. main e = Inr (rc, st') \<and>
      (rc = Some (- 1)) = (\<exists>t. EvSlotRun t None main_url \<in> set (trace st')))"
proof -
  have h: "loop_running st \<and> return_code st = None \<longrightarrow>
      (return_code (handler url obj objUrl st) = Some (- 1)) = (obj = None \<and> objUrl = url)"
    by (auto simp: handler_def QCoreApplication_exit_def)
  have p: "handler url (Some a) objUrl st = st"
    by (simp add: handler_def)
  from main_result [of e] obtain rc st' more where
    m: "main e = Inr (rc, st')"
    and t: "trace st' = startup_trace e @ load_deliveries e @ more"
    and r: "(rc = Some (- 1)) = list_ex (failed_delivery main_url) (load_deliveries e @ more)"
    by blast
  have "(rc = Some (- 1)) = (\<exists>t. EvSlotRun t None main_url \<in> set (trace st'))"
    unfolding r failed_delivery_iff t by (auto simp: startup_trace_def)
  with m h p show ?thesis by blast
qed

theorem sentinel_exit_iff_failed_delivery_witness:
  "loop_running running_state \<and> return_code running_state = None \<and>
   return_code (handler main_url None main_url running_state) = Some (- 1) \<and>
   return_code (handler main_url (Some 1) main_url running_state) = None \<and>
   fst (projr (main env_unresolved)) = Some (- 1) \<and>
   fst (projr (main env_resolved)) = Some 0"
proof -
  have a: "loop_running running_state \<and> return_code running_state = None"
    by (simp add: running_state_def)
  have b: "return_code (handler main_url None main_url running_state) = Some (- 1)"
    using sentinel_exit_iff_failed_delivery [of running_state main_url None main_url] a
    by simp
  have c: "return_code (handler main_url (Some 1) main_url running_state) = None"
    using sentinel_exit_iff_failed_delivery [of running_state main_url "Some 1" main_url] a
    by simp
  have d: "fst (projr (main env_unresolved)) = Some (- 1)"
    by (simp add: main_exec exec_entry_eq env_unresolved_def sendPostedEvents_def run_slot_def
        handler_def log_event_def QCoreApplication_exit_def main_conn_def)
  have e: "fst (projr (main env_resolved)) = Some 0"
    by (simp add: main_exec exec_entry_eq env_resolved_def sendPostedEvents_def run_slot_def
        handler_def log_event_def QCoreApplication_exit_def main_conn_def handle_input_def)
  from a b c d e show ?thesis by simp
qed

lemma load_deliveries_on_gui: "list_all (slot_run_on GuiThread) (load_deliveries e)"
  by (simp add: load_deliveries_def list_all_iff slot_run_on_def case_prod_beta)

text \<open>
  C3. Handed an identifier other than the one it was connected for, the callback leaves
  the whole state as it is, whether the object is null or not: no exit is requested and
  nothing else changes.
\<close>

theorem mismatched_identifier_ignored:
  "objUrl \<noteq> url \<Longrightarrow> handler url obj objUrl st = st"
  by (simp add: handler_def)

theorem mismatched_identifier_ignored_witness:
  "''qrc:/other.qml'' \<noteq> main_url \<and>
   handler main_url None ''qrc:/other.qml'' running_state = running_state \<and>
   handler main_url (Some 1) ''qrc:/other.qml'' running_state = running_state"
proof -
  have d: "''qrc:/other.qml'' \<noteq> main_url" by (simp add: main_url_def)
  from d mismatched_identifier_ignored [OF d, of None running_state]
    mismatched_identifier_ignored [OF d, of "Some 1" running_state]
  show ?thesis by simp
qed

section \<open>Order of startup\<close>

text \<open>
  C2. In every execution \<^verbatim>\<open>main\<close> reaches the call \<^verbatim>\<open>engine.load(url)\<close>, that call is
  the only load request, the call of \<^verbatim>\<open>setContextProperty\<close> that publishes the formatted
  version under the key \<^verbatim>\<open>usdVersion\<close> comes before it in program order, and the
  context the engine is handed at the load request holds that entry.
\<close>

theorem publish_before_load:
  "\<exists>rc st' pre post ctx.
     main e = Inr (rc, st') \<and>
     trace st' = pre @ EvLoadCall main_url ctx # post \<and>
     EvSetContextProperty ''usdVersion'' (to_string (env_pxr_version e)) \<in> set pre \<and>
     map_of ctx ''usdVersion'' = Some (to_string (env_pxr_version e)) \<and>
     (\<forall>u c. EvLoadCall u c \<notin> set pre) \<and> (\<forall>u c. EvLoadCall u c \<notin> set post)"
proof -
  from main_result [of e] obtain rc st' more where
    m: "main e = Inr (rc, st')"
    and t: "trace st' = startup_trace e @ load_deliveries e @ more"
    and g: "list_all (slot_run_on GuiThread) more"
    by blast
  let ?tok = "to_string (env_pxr_version e)"
  let ?pre = "[EvQueryVersion, EvQueryVersion, EvSetContextProperty ''usdVersion'' ?tok,
               EvConnect QueuedConnection]"
  let ?post = "[EvLoadReturn, EvExecEnter] @ load_deliveries e @ more"
  have a: "trace st' = ?pre @ EvLoadCall main_url [(''usdVersion'', ?tok)] # ?post"
    by (simp add: t startup_trace_def)
  have b: "\<forall>u c. EvLoadCall u c \<notin> set ?post"
    using slot_runs_only [OF g] slot_runs_only [OF load_deliveries_on_gui [of e]]
    by fastforce
  have c: "\<forall>u c. EvLoadCall u c \<notin> set ?pre" by simp
  have d: "EvSetContextProperty ''usdVersion'' ?tok \<in> set ?pre" by simp
  have f: "map_of [(''usdVersion'', ?tok)] ''usdVersion'' = Some ?tok" by simp
  from m a b c d f show ?thesis by blast
qed

text \<open>
  C7. In every execution the trace of \<^verbatim>\<open>main\<close> holds exactly one write of the binding
  context, the call of line 19 with the key \<^verbatim>\<open>usdVersion\<close> and the formatted version;
  it comes before the load request; the context the engine is handed at the load
  request has that one entry and nothing else; and the context at the end of the
  execution is still that same one-entry context.
\<close>

theorem context_written_once_before_load:
  "\<exists>rc st' pre mid post.
     main e = Inr (rc, st') \<and>
     trace st' =
       pre @ EvSetContextProperty ''usdVersion'' (to_string (env_pxr_version e)) # mid @
       EvLoadCall main_url [(''usdVersion'', to_string (env_pxr_version e))] # post \<and>
     (\<forall>k v. EvSetContextProperty k v \<notin> set pre) \<and>
     (\<forall>k v. EvSetContextProperty k v \<notin> set mid) \<and>
     (\<forall>k v. EvSetContextProperty k v \<notin> set post) \<and>
     root_context st' = [(''usdVersion'', to_string (env_pxr_version e))]"
proof -
  from main_result [of e] obtain rc st' more where
    m: "main e = Inr (rc, st')"
    and r: "root_context st' = [(''usdVersion'', to_string (env_pxr_version e))]"
    and t: "trace st' = startup_trace e @ load_deliveries e @ more"
    and g: "list_all (slot_run_on GuiThread) more"
    by blast
  let ?tok = "to_string (env_pxr_version e)"
  let ?pre = "[EvQueryVersion, EvQueryVersion]"
  let ?mid = "[EvConnect QueuedConnection]"
  let ?post = "[EvLoadReturn, EvExecEnter] @ load_deliveries e @ more"
  have a: "trace st' = ?pre @ EvSetContextProperty ''usdVersion'' ?tok # ?mid @
       EvLoadCall main_url [(''usdVersion'', ?tok)] # ?post"
    by (simp add: t startup_trace_def)
  have b: "\<forall>k v. EvSetContextProperty k v \<notin> set ?post"
    using slot_runs_only [OF g] slot_runs_only [OF load_deliveries_on_gui [of e]]
    by fastforce
  have c: "\<forall>k v. EvSetContextProperty k v \<notin> set ?pre"
    "\<forall>k v. EvSetContextProperty k v \<notin> set ?mid" by simp_all
  from m a b c r show ?thesis by blast
qed

text \<open>
  C8. In every execution no run of the callback happens before \<^verbatim>\<open>engine.load(url)\<close>
  has returned and \<^verbatim>\<open>app.exec()\<close> has been entered; every notification the engine
  emitted inside \<^verbatim>\<open>load\<close>, from whatever thread, is then run by the event loop, in order,
  on the thread of \<^verbatim>\<open>main\<close>; and every later run of the callback is on that thread too.
\<close>

theorem load_notification_is_queued:
  "\<exists>rc st' pre more.
     main e = Inr (rc, st') \<and>
     trace st' =
       pre @ [EvLoadReturn, EvExecEnter] @
       map (\<lambda>(t, obj, objUrl). EvSlotRun GuiThread obj objUrl)
         (env_resolve e [(''usdVersion'', to_string (env_pxr_version e))] main_url) @ more \<and>
     EvLoadCall main_url [(''usdVersion'', to_string (env_pxr_version e))] \<in> set pre \<and>
     (\<forall>t obj u. EvSlotRun t obj u \<notin> set pre) \<and>
     (\<forall>ev \<in> set more. \<exists>obj u. ev = EvSlotRun GuiThread obj u)"
proof -
  from main_result [of e] obtain rc st' more where
    m: "main e = Inr (rc, st')"
    and t: "trace st' = startup_trace e @ load_deliveries e @ more"
    and g: "list_all (slot_run_on GuiThread) more"
    by blast
  let ?tok = "to_string (env_pxr_version e)"
  let ?pre = "[EvQueryVersion, EvQueryVersion, EvSetContextProperty ''usdVersion'' ?tok,
               EvConnect QueuedConnection, EvLoadCall main_url [(''usdVersion'', ?tok)]]"
  have a: "trace st' = ?pre @ [EvLoadReturn, EvExecEnter] @
       map (\<lambda>(t, obj, objUrl). EvSlotRun GuiThread obj objUrl)
         (env_resolve e [(''usdVersion'', ?tok)] main_url) @ more"
    by (simp add: t startup_trace_def load_deliveries_def)
  have b: "\<forall>ev \<in> set more. \<exists>obj u. ev = EvSlotRun GuiThread obj u"
    using slot_runs_only [OF g] by blast
  have c: "EvLoadCall main_url [(''usdVersion'', ?tok)] \<in> set ?pre"
    "\<forall>t obj u. EvSlotRun t obj u \<notin> set ?pre" by simp_all
  from m a b c show ?thesis by blast
qed

theorem load_notification_is_queued_witness:
  "trace (snd (projr (main env_async))) =
     [EvQueryVersion, EvQueryVersion, EvSetContextProperty ''usdVersion'' ''2505'',
      EvConnect QueuedConnection, EvLoadCall ''qrc:/main.qml'' [(''usdVersion'', ''2505'')],
      EvLoadReturn, EvExecEnter, EvSlotRun GuiThread None ''qrc:/main.qml''] \<and>
   trace (snd (projr (main env_unresolved))) =
     [EvQueryVersion, EvQueryVersion, EvSetContextProperty ''usdVersion'' ''2505'',
      EvConnect QueuedConnection, EvLoadCall ''qrc:/main.qml'' [(''usdVersion'', ''2505'')],
      EvLoadReturn, EvExecEnter, EvSlotRun GuiThread None ''qrc:/main.qml'']"
proof -
  have tok: "to_string 2505 = ''2505''" by code_simp
  have a: "trace (snd (projr (main env_async))) =
     [EvQueryVersion, EvQueryVersion, EvSetContextProperty ''usdVersion'' ''2505'',
      EvConnect QueuedConnection, EvLoadCall ''qrc:/main.qml'' [(''usdVersion'', ''2505'')],
      EvLoadReturn, EvExecEnter, EvSlotRun GuiThread None ''qrc:/main.qml'']"
    using load_notification_is_queued [of env_async]
    by (simp add: main_exec exec_entry_eq env_async_def sendPostedEvents_def run_slot_def
        handler_def log_event_def QCoreApplication_exit_def main_conn_def handle_input_def
        emit_objectCreated_def activate_def post_slot_def main_url_def tok)
  have b: "trace (snd (projr (main env_unresolved))) =
     [EvQueryVersion, EvQueryVersion, EvSetContextProperty ''usdVersion'' ''2505'',
      EvConnect QueuedConnection, EvLoadCall ''qrc:/main.qml'' [(''usdVersion'', ''2505'')],
      EvLoadReturn, EvExecEnter, EvSlotRun GuiThread None ''qrc:/main.qml'']"
    by (simp add: main_exec exec_entry_eq env_unresolved_def sendPostedEvents_def run_slot_def
        handler_def log_event_def QCoreApplication_exit_def main_conn_def main_url_def tok)
  from a b show ?thesis by simp
qed

section \<open>The version token\<close>



text \<open>
  C5. Two successive calls of the version query in one execution give the same
  formatted text.
\<close>

theorem queryVersion_idempotent:
  "to_string (fst (UsdGetVersion (snd (UsdGetVersion st)))) = to_string (fst (UsdGetVersion st))"
  by (simp add: UsdGetVersion_def)

lemma repeated_query_keeps_version:
  "pxr_version (((snd \<circ> UsdGetVersion) ^^ n) st) = pxr_version st"
  by (induction n) (simp_all add: UsdGetVersion_def)

text \<open>
  C6. For every build, the formatted result of the version query is a non-empty string;
  after any number of earlier queries in the same process the next query formats to the
  text of the build's version; and two states of the same build give the same text.
\<close>

theorem version_token_nonempty_deterministic:
  "to_string (fst (UsdGetVersion st)) \<noteq> [] \<and>
   to_string (fst (UsdGetVersion (((snd \<circ> UsdGetVersion) ^^ n) st))) = to_string (pxr_version st) \<and>
   (pxr_version st2 = pxr_version st \<longrightarrow>
      to_string (fst (UsdGetVersion st2)) = to_string (fst (UsdGetVersion st)))"
  using repeated_query_keeps_version [of n st]
  by (simp add: UsdGetVersion_def to_string_nonempty)

theorem version_token_nonempty_deterministic_witness:
  "pxr_version (running_state\<lparr>return_code := Some 0\<rparr>) = pxr_version running_state \<and>
   to_string (fst (UsdGetVersion (running_state\<lparr>return_code := Some 0\<rparr>))) = ''2505'' \<and>
   to_string (fst (UsdGetVersion running_state)) = ''2505'' \<and>
   to_string (fst (UsdGetVersion (((snd \<circ> UsdGetVersion) ^^ 3) running_state))) = ''2505''"
proof -
  have tok: "to_string 2505 = ''2505''" by code_simp
  have v: "pxr_version running_state = 2505" by (simp add: running_state_def)
  have h: "pxr_version (running_state\<lparr>return_code := Some 0\<rparr>) = pxr_version running_state"
    by simp
  from version_token_nonempty_deterministic
         [of running_state 3 "running_state\<lparr>return_code := Some 0\<rparr>"] h
  show ?thesis by (simp add: UsdGetVersion_def v tok)
qed

section \<open>The diagnostic line\<close>




text \<open>
  C10. In every execution the binding context holds, under \<^verbatim>\<open>usdVersion\<close>, the decimal
  text of the build's version; and what the diagnostic stream received is the line made of
  \<^verbatim>\<open>USD Version: \<close>, that same decimal text and a newline when the stream works, and
  nothing otherwise. The text of the first query and the text of the second are equal.
\<close>

theorem diagnostic_and_published_token_agree:
  "\<exists>rc st'.
     main e = Inr (rc, st') \<and>
     map_of (root_context st') ''usdVersion'' = Some (dec_int (env_pxr_version e)) \<and>
     sink (cout st') =
       (if \<not> env_cout_failed e \<and> env_device_ok e
        then ''USD Version: '' @ dec_int (env_pxr_version e) @ [CHR 0x0A]
        else [])"
proof -
  from main_result [of e] obtain rc st' where
    m: "main e = Inr (rc, st')"
    and c: "cout st' = cout_after e"
    and r: "root_context st' = [(''usdVersion'', to_string (env_pxr_version e))]"
    by blast
  have "map_of (root_context st') ''usdVersion'' = Some (dec_int (env_pxr_version e))"
    by (simp add: r to_string_def)
  moreover have "sink (cout st') =
       (if \<not> env_cout_failed e \<and> env_device_ok e
        then ''USD Version: '' @ dec_int (env_pxr_version e) @ [CHR 0x0A]
        else [])"
    by (simp add: c cout_after_def stream_after_def QGuiApplication_ctor_def)
  ultimately show ?thesis using m by blast
qed

theorem diagnostic_and_published_token_agree_witness:
  "sink (cout (snd (projr (main env_resolved)))) = ''USD Version: 2505'' @ [CHR 0x0A] \<and>
   map_of (root_context (snd (projr (main env_resolved)))) ''usdVersion'' = Some ''2505''"
proof -
  have tok: "dec_int 2505 = ''2505''" by code_simp
  from diagnostic_and_published_token_agree [of env_resolved] obtain rc st' where
    m: "main env_resolved = Inr (rc, st')"
    and c: "map_of (root_context st') ''usdVersion'' = Some (dec_int (env_pxr_version env_resolved))"
    and k: "sink (cout st') =
       (if \<not> env_cout_failed env_resolved \<and> env_device_ok env_resolved
        then ''USD Version: '' @ dec_int (env_pxr_version env_resolved) @ [CHR 0x0A]
        else [])"
    by blast
  from m c k show ?thesis by (simp add: env_resolved_def tok)
qed

end
